theory Spec2Isabelle
  imports Main
begin

section \<open>Python values used by the server\<close>

text \<open>
  The program is \<^verbatim>\<open>main.py\<close>: a directory-listing HTTP server. Python \<^verbatim>\<open>bytes\<close> are
  modelled as \<^typ>\<open>string\<close> (a list of 8-bit characters). A Python \<^verbatim>\<open>str\<close> is modelled
  by its UTF-8 encoding, again a \<^typ>\<open>string\<close>: \<^verbatim>\<open>bytes.decode()\<close> checks that the
  bytes are well-formed UTF-8 and raises \<^verbatim>\<open>UnicodeDecodeError\<close> otherwise, and
  \<^verbatim>\<open>str.encode()\<close> is the identity on this representation. All separators the program
  searches for (space, slash, dot, CR LF) are ASCII, so searching, stripping and slicing
  after a \<^verbatim>\<open>startswith\<close> test agree on code points and on UTF-8 bytes. File names
  that are not UTF-8 (which Python holds as strings that cannot be encoded) have no
  counterpart in this representation.

  Exceptions are values: every function that can raise returns \<open>error + 'a\<close>, with
  \<open>Inl\<close> for the exception that leaves the function.
\<close>

datatype error =
    FileNotFoundError
  | NotADirectoryError
  | AttributeError
  | UnicodeDecodeError
  | KeyError
  | IndexError
  | TypeError

definition CRLF :: string where
  "CRLF = [CHR 0x0D, CHR 0x0A]"

text \<open>The double quote, which a string literal of the logic cannot contain.\<close>

definition DQ :: string where
  "DQ = [CHR 0x22]"

subsection \<open>String methods\<close>

definition startswith :: "string \<Rightarrow> string \<Rightarrow> bool" where
  "startswith s p = (take (length p) s = p)"

definition endswith :: "string \<Rightarrow> string \<Rightarrow> bool" where
  "endswith s p = (length p \<le> length s \<and> drop (length s - length p) s = p)"

text \<open>\<^verbatim>\<open>s.lstrip(cs)\<close>, \<^verbatim>\<open>s.rstrip(cs)\<close>, \<^verbatim>\<open>s.strip(cs)\<close>: remove the characters of \<open>cs\<close> at the ends.\<close>

definition lstrip :: "string \<Rightarrow> string \<Rightarrow> string" where
  "lstrip s cs = dropWhile (\<lambda>c. c \<in> set cs) s"

definition rstrip :: "string \<Rightarrow> string \<Rightarrow> string" where
  "rstrip s cs = rev (dropWhile (\<lambda>c. c \<in> set cs) (rev s))"

definition strip :: "string \<Rightarrow> string \<Rightarrow> string" where
  "strip s cs = rstrip (lstrip s cs) cs"

text \<open>
  \<^verbatim>\<open>s.split(sep)\<close> with an explicit separator: the pieces between the non-overlapping
  occurrences of \<open>sep\<close>, found left to right; the result always has at least one piece.
  \<open>cur\<close> is the piece being read. Both call sites pass a non-empty constant separator
  (Python raises on an empty one; here an empty separator never matches).
\<close>

function split_aux :: "string \<Rightarrow> string \<Rightarrow> string \<Rightarrow> string list" where
  "split_aux sep cur [] = [cur]"
| "split_aux sep cur (c # cs) =
     (if sep \<noteq> [] \<and> startswith (c # cs) sep
      then cur # split_aux sep [] (drop (length sep) (c # cs))
      else split_aux sep (cur @ [c]) cs)"
  by pat_completeness auto
termination
  by (relation "measure (\<lambda>(sep, cur, s). length s)") auto

definition split :: "string \<Rightarrow> string \<Rightarrow> string list" where
  "split s sep = split_aux sep [] s"

text \<open>\<^verbatim>\<open>sep.join(pieces)\<close>.\<close>

fun join_str :: "string \<Rightarrow> string list \<Rightarrow> string" where
  "join_str sep [] = []"
| "join_str sep [x] = x"
| "join_str sep (x # y # ys) = x @ sep @ join_str sep (y # ys)"

text \<open>\<^verbatim>\<open>s.replace(old, new)\<close> for a non-empty \<open>old\<close>: every non-overlapping occurrence, left to right.\<close>

definition replace :: "string \<Rightarrow> string \<Rightarrow> string \<Rightarrow> string" where
  "replace s old new = join_str new (split s old)"

text \<open>\<^verbatim>\<open>s.rfind(c)\<close>: the index of the last occurrence, \<open>-1\<close> when there is none.\<close>

definition rfind :: "string \<Rightarrow> char \<Rightarrow> int" where
  "rfind s c = int (length (dropWhile (\<lambda>x. x \<noteq> c) (rev s))) - 1"

subsection \<open>UTF-8\<close>

definition byte :: "char \<Rightarrow> nat" where
  "byte c = of_char c"

definition cont :: "char \<Rightarrow> bool" where
  "cont c = (0x80 \<le> byte c \<and> byte c \<le> 0xBF)"

text \<open>
  The second byte of a three- and four-byte sequence is restricted by the first, which
  excludes overlong forms, surrogates and code points above U+10FFFF, as Python's strict
  decoder does.
\<close>

definition second3 :: "nat \<Rightarrow> char \<Rightarrow> bool" where
  "second3 x b =
     (if x = 0xE0 then 0xA0 \<le> byte b \<and> byte b \<le> 0xBF
      else if x = 0xED then 0x80 \<le> byte b \<and> byte b \<le> 0x9F
      else cont b)"

definition second4 :: "nat \<Rightarrow> char \<Rightarrow> bool" where
  "second4 x b =
     (if x = 0xF0 then 0x90 \<le> byte b \<and> byte b \<le> 0xBF
      else if x = 0xF4 then 0x80 \<le> byte b \<and> byte b \<le> 0x8F
      else cont b)"

fun utf8_valid :: "string \<Rightarrow> bool" where
  "utf8_valid [] = True"
| "utf8_valid (a # rest) =
     (if byte a < 0x80 then utf8_valid rest
      else if 0xC2 \<le> byte a \<and> byte a \<le> 0xDF then
        (case rest of b # r \<Rightarrow> cont b \<and> utf8_valid r | _ \<Rightarrow> False)
      else if 0xE0 \<le> byte a \<and> byte a \<le> 0xEF then
        (case rest of b # c # r \<Rightarrow> second3 (byte a) b \<and> cont c \<and> utf8_valid r | _ \<Rightarrow> False)
      else if 0xF0 \<le> byte a \<and> byte a \<le> 0xF4 then
        (case rest of b # c # d # r \<Rightarrow>
           second4 (byte a) b \<and> cont c \<and> cont d \<and> utf8_valid r | _ \<Rightarrow> False)
      else False)"

definition decode :: "string \<Rightarrow> error + string" where
  "decode bs = (if utf8_valid bs then Inr bs else Inl UnicodeDecodeError)"

definition encode :: "string \<Rightarrow> string" where
  "encode s = s"

subsection \<open>Printing an integer: \<^verbatim>\<open>'%s' % n\<close>\<close>

fun str_nat :: "nat \<Rightarrow> string" where
  "str_nat n =
     (if n < 10 then [''0123456789'' ! n]
      else str_nat (n div 10) @ [''0123456789'' ! (n mod 10)])"

declare str_nat.simps [simp del]

definition str_int :: "int \<Rightarrow> string" where
  "str_int i = (if i < 0 then ''-'' @ str_nat (nat (- i)) else str_nat (nat i))"

section \<open>The path functions of \<^verbatim>\<open>os.path\<close> on POSIX\<close>

text \<open>
  \<^verbatim>\<open>os.sep\<close> is the slash. \<^verbatim>\<open>os.path.join\<close> with two arguments and \<^verbatim>\<open>os.path.dirname\<close>
  are the functions of \<^verbatim>\<open>posixpath\<close>: a second component that starts with the separator
  replaces the first; \<^verbatim>\<open>dirname\<close> cuts after the last separator and strips trailing
  separators from the head unless the head consists of separators only.
\<close>

definition os_sep :: string where
  "os_sep = ''/''"

definition path_join :: "string \<Rightarrow> string \<Rightarrow> string" where
  "path_join a b =
     (if startswith b os_sep then b
      else if a = [] \<or> endswith a os_sep then a @ b
      else a @ os_sep @ b)"

definition dirname :: "string \<Rightarrow> string" where
  "dirname p =
     (let i = rfind p (CHR ''/'') + 1;
          head = take (nat i) p
      in if head \<noteq> [] \<and> head \<noteq> replicate (length head) (CHR ''/'')
         then rstrip head os_sep else head)"

section \<open>The filesystem\<close>

text \<open>
  The host filesystem is a parameter: what a path names after the kernel has resolved it
  (following \<open>..\<close> and symbolic links), or nothing. \<^verbatim>\<open>os.path.exists\<close>,
  \<^verbatim>\<open>os.path.isdir\<close> and \<^verbatim>\<open>os.listdir\<close> read it. \<^verbatim>\<open>os.getcwd()\<close> is the field \<open>cwd\<close>.
\<close>

datatype node = File | Dir "string list"

record env =
  cwd :: string
  fs :: "string \<Rightarrow> node option"

definition path_exists :: "env \<Rightarrow> string \<Rightarrow> bool" where
  "path_exists e p = (case fs e p of None \<Rightarrow> False | Some _ \<Rightarrow> True)"

definition isdir :: "env \<Rightarrow> string \<Rightarrow> bool" where
  "isdir e p = (case fs e p of Some (Dir _) \<Rightarrow> True | _ \<Rightarrow> False)"

definition listdir :: "env \<Rightarrow> string \<Rightarrow> error + string list" where
  "listdir e p =
     (case fs e p of
        None \<Rightarrow> Inl FileNotFoundError
      | Some File \<Rightarrow> Inl NotADirectoryError
      | Some (Dir names) \<Rightarrow> Inr names)"

section \<open>Class \<^verbatim>\<open>DirListing\<close>\<close>

record dir_listing =
  dir_path :: string
  is_root_dir :: bool
  parent_dir :: string

text \<open>\<^verbatim>\<open>DirListing.__url_path_to_dir_path\<close>; the working directory is passed in.\<close>

definition url_path_to_dir_path :: "string \<Rightarrow> string \<Rightarrow> string" where
  "url_path_to_dir_path getcwd url_path =
     (let url_path' = (if url_path \<noteq> [] then url_path @ os_sep else url_path)
      in dirname (path_join getcwd url_path'))"

text \<open>\<^verbatim>\<open>DirListing.__dir_path_to_url_path\<close>.\<close>

definition dir_path_to_url_path :: "string \<Rightarrow> string \<Rightarrow> string" where
  "dir_path_to_url_path getcwd dpath =
     (let prefix = getcwd;
          url_path = (if startswith dpath prefix
                      then replace (drop (length prefix) dpath) os_sep ''/''
                      else [])
      in if url_path = [] then ''/'' else url_path)"

text \<open>\<^verbatim>\<open>DirListing.__init__\<close>: raises \<^verbatim>\<open>FileNotFoundError\<close> or returns the new object.\<close>

definition DirListing :: "env \<Rightarrow> string \<Rightarrow> error + dir_listing" where
  "DirListing e url_path =
     (let dp = url_path_to_dir_path (cwd e) url_path
      in if \<not> path_exists e dp then Inl FileNotFoundError
         else Inr \<lparr> dir_path = dp,
                    is_root_dir = (url_path = []),
                    parent_dir = (if \<not> (url_path = []) then dirname dp else []) \<rparr>)"

text \<open>
  The loop of \<^verbatim>\<open>get_hyperlinked_dir_listing\<close> over the names \<^verbatim>\<open>files\<close>, with the
  accumulated \<^verbatim>\<open>html\<close>.
\<close>

fun listing_loop :: "env \<Rightarrow> string \<Rightarrow> string list \<Rightarrow> string \<Rightarrow> string" where
  "listing_loop e dp [] html = html"
| "listing_loop e dp (f # files) html =
     (if startswith f ''.'' then listing_loop e dp files html
      else
        (let f' = (if isdir e (path_join dp f)
                   then (let subdir_path = path_join dp f;
                             url_path_sub = dir_path_to_url_path (cwd e) subdir_path
                         in ''<a href='' @ DQ @ url_path_sub @ DQ @ ''>'' @ f @ ''/</a>'')
                   else f);
             f'' = f' @ ''<br>''
         in listing_loop e dp files (html @ f'')))"

definition get_hyperlinked_dir_listing :: "env \<Rightarrow> dir_listing \<Rightarrow> error + string" where
  "get_hyperlinked_dir_listing e self =
     (let html = ''<html><body>'';
          html1 = (if \<not> is_root_dir self
                   then (let parent_url = dir_path_to_url_path (cwd e) (parent_dir self)
                         in html @ ''<a href='' @ DQ @ parent_url @ DQ @ ''>[parent directory]</a><br>'')
                   else html)
      in case listdir e (dir_path self) of
           Inl err \<Rightarrow> Inl err
         | Inr files \<Rightarrow> Inr (listing_loop e (dir_path self) files html1 @ ''</body></html>''))"

section \<open>Dictionaries and the object store\<close>

text \<open>
  A Python \<^verbatim>\<open>dict\<close> keeps its keys in insertion order: it is an association list with
  distinct keys. Assigning to a key that is present replaces the value in place, a new
  key is appended. Dictionaries are mutable objects, so they live in a store
  addressed by references; \<^verbatim>\<open>d.copy()\<close> allocates a new object, \<^verbatim>\<open>d.update(other)\<close>
  changes the object \<open>d\<close> refers to. A reference that the program holds always names
  an object of the store (\<open>r < length h\<close>); the theorems that read the shared
  dictionary state this as a hypothesis.
\<close>

type_synonym dict = "(string \<times> string) list"

fun dict_setitem :: "dict \<Rightarrow> string \<Rightarrow> string \<Rightarrow> dict" where
  "dict_setitem [] k v = [(k, v)]"
| "dict_setitem ((k', v') # d) k v =
     (if k' = k then (k', v) # d else (k', v') # dict_setitem d k v)"

fun dict_update :: "dict \<Rightarrow> dict \<Rightarrow> dict" where
  "dict_update d [] = d"
| "dict_update d ((k, v) # other) = dict_update (dict_setitem d k v) other"

definition dict_getitem :: "dict \<Rightarrow> string \<Rightarrow> error + string" where
  "dict_getitem d k = (case map_of d k of None \<Rightarrow> Inl KeyError | Some v \<Rightarrow> Inr v)"

type_synonym ref = nat
type_synonym store = "dict list"

definition store_copy :: "store \<Rightarrow> ref \<Rightarrow> ref \<times> store" where
  "store_copy h r = (length h, h @ [h ! r])"

definition store_update :: "store \<Rightarrow> ref \<Rightarrow> dict \<Rightarrow> store" where
  "store_update h r other = h[r := dict_update (h ! r) other]"

section \<open>Class \<^verbatim>\<open>HTTPRequest\<close>\<close>

text \<open>The field \<^verbatim>\<open>method\<close> is called \<open>http_method\<close> here.\<close>

record request =
  http_method :: "string option"
  uri :: "string option"
  http_version :: string

text \<open>
  \<^verbatim>\<open>handle_request\<close> is also reachable with a request object as its argument (through
  the lookup by name below), so the argument of the parser is either bytes or an object
  without a \<^verbatim>\<open>split\<close> attribute.
\<close>

datatype pyval = Bytes string | Request request

text \<open>\<^verbatim>\<open>HTTPRequest.parse\<close> on the object initialised by \<^verbatim>\<open>__init__\<close>.\<close>

definition parse :: "request \<Rightarrow> pyval \<Rightarrow> error + request" where
  "parse self data =
     (case data of
        Request _ \<Rightarrow> Inl AttributeError
      | Bytes bs \<Rightarrow>
          (case split bs CRLF of
             [] \<Rightarrow> Inl IndexError
           | request_line # _ \<Rightarrow>
               (case split request_line '' '' of
                  [] \<Rightarrow> Inl IndexError
                | w0 # ws \<Rightarrow>
                    (case decode w0 of
                       Inl err \<Rightarrow> Inl err
                     | Inr m \<Rightarrow>
                         (let self1 = self\<lparr>http_method := Some m\<rparr>
                          in case ws of
                               [] \<Rightarrow> Inr self1
                             | w1 # ws' \<Rightarrow>
                                 (case decode w1 of
                                    Inl err \<Rightarrow> Inl err
                                  | Inr u \<Rightarrow>
                                      (let self2 = self1\<lparr>uri := Some u\<rparr>
                                       in case ws' of
                                            [] \<Rightarrow> Inr self2
                                          | w2 # _ \<Rightarrow> Inr (self2\<lparr>http_version := w2\<rparr>))))))))"

definition HTTPRequest :: "pyval \<Rightarrow> error + request" where
  "HTTPRequest data = parse \<lparr> http_method = None, uri = None, http_version = ''1.1'' \<rparr> data"

section \<open>Class \<^verbatim>\<open>HTTPServer\<close>\<close>

text \<open>
  The class attribute \<^verbatim>\<open>headers\<close> names one dictionary object, shared by all calls;
  the server object holds the reference. \<^verbatim>\<open>status_codes\<close> is only ever read.
\<close>

record server =
  headers :: ref

definition base_headers :: dict where
  "base_headers = [(''Server'', ''CrudeServer''), (''Content-Type'', ''text/html'')]"

definition status_codes :: "(int \<times> string) list" where
  "status_codes = [(200, ''OK''), (404, ''Not Found''), (501, ''Not Implemented'')]"

definition response_line :: "int \<Rightarrow> error + string" where
  "response_line status_code =
     (case map_of status_codes status_code of
        None \<Rightarrow> Inl KeyError
      | Some reason \<Rightarrow>
          Inr (encode (''HTTP/1.1 '' @ str_int status_code @ '' '' @ reason @ CRLF)))"

text \<open>The loop \<^verbatim>\<open>for h in headers_copy: headers += '%s: %s\r\n' % (h, headers_copy[h])\<close>.\<close>

fun headers_loop :: "dict \<Rightarrow> string list \<Rightarrow> string \<Rightarrow> error + string" where
  "headers_loop d [] acc = Inr acc"
| "headers_loop d (k # ks) acc =
     (case dict_getitem d k of
        Inl err \<Rightarrow> Inl err
      | Inr v \<Rightarrow> headers_loop d ks (acc @ k @ '': '' @ v @ CRLF))"

text \<open>
  \<^verbatim>\<open>response_headers\<close>: the result and the store after the call. \<open>None\<close> and the empty
  dictionary are both false in \<^verbatim>\<open>if extra_headers:\<close>.
\<close>

definition response_headers ::
  "server \<Rightarrow> store \<Rightarrow> dict option \<Rightarrow> (error + string) \<times> store" where
  "response_headers self h extra_headers =
     (case store_copy h (headers self) of
        (headers_copy, h1) \<Rightarrow>
          (let h2 = (case extra_headers of
                       None \<Rightarrow> h1
                     | Some other \<Rightarrow>
                         if other \<noteq> [] then store_update h1 headers_copy other else h1)
           in case headers_loop (h2 ! headers_copy) (map fst (h2 ! headers_copy)) [] of
                Inl err \<Rightarrow> (Inl err, h2)
              | Inr hs \<Rightarrow> (Inr (encode hs), h2)))"

text \<open>The body of the \<^verbatim>\<open>try\<close> block of \<^verbatim>\<open>handle_GET\<close>: the three parts of the response.\<close>

definition handle_GET_try ::
  "server \<Rightarrow> env \<Rightarrow> store \<Rightarrow> string \<Rightarrow> (error + string \<times> string \<times> string) \<times> store" where
  "handle_GET_try self e h url_path =
     (case DirListing e url_path of
        Inl err \<Rightarrow> (Inl err, h)
      | Inr dl \<Rightarrow>
          (case response_line 200 of
             Inl err \<Rightarrow> (Inl err, h)
           | Inr rl \<Rightarrow>
               (case response_headers self h (Some [(''Content-Type'', ''text/html'')]) of
                  (rh_result, h1) \<Rightarrow>
                    (case rh_result of
                       Inl err \<Rightarrow> (Inl err, h1)
                     | Inr rh \<Rightarrow>
                         (case get_hyperlinked_dir_listing e dl of
                            Inl err \<Rightarrow> (Inl err, h1)
                          | Inr html \<Rightarrow> (Inr (rl, rh, encode html), h1))))))"

text \<open>
  \<^verbatim>\<open>handle_GET\<close>: \<^verbatim>\<open>request.uri.strip('/')\<close> raises \<^verbatim>\<open>AttributeError\<close> on \<^verbatim>\<open>None\<close>;
  the \<^verbatim>\<open>except\<close> clause catches \<^verbatim>\<open>FileNotFoundError\<close> only, every other exception
  leaves the handler.
\<close>

definition handle_GET ::
  "server \<Rightarrow> env \<Rightarrow> store \<Rightarrow> request \<Rightarrow> (error + string) \<times> store" where
  "handle_GET self e h request =
     (case uri request of
        None \<Rightarrow> (Inl AttributeError, h)
      | Some u \<Rightarrow>
          (let url_path = strip u ''/''
           in case handle_GET_try self e h url_path of
                (result, h1) \<Rightarrow>
                  (case result of
                     Inr (rl, rh, body) \<Rightarrow> (Inr (rl @ rh @ CRLF @ body), h1)
                   | Inl err \<Rightarrow>
                       if err = FileNotFoundError then
                         (case response_line 404 of
                            Inl err' \<Rightarrow> (Inl err', h1)
                          | Inr rl \<Rightarrow>
                              (case response_headers self h1 None of
                                 (rh_result, h2) \<Rightarrow>
                                   (case rh_result of
                                      Inl err' \<Rightarrow> (Inl err', h2)
                                    | Inr rh \<Rightarrow>
                                        (Inr (rl @ rh @ CRLF @ ''<h1>404 Not Found</h1>''), h2))))
                       else (Inl err, h1))))"

definition HTTP_501_handler ::
  "server \<Rightarrow> store \<Rightarrow> request \<Rightarrow> (error + string) \<times> store" where
  "HTTP_501_handler self h request =
     (case response_line 501 of
        Inl err \<Rightarrow> (Inl err, h)
      | Inr rl \<Rightarrow>
          (case response_headers self h None of
             (rh_result, h1) \<Rightarrow>
               (case rh_result of
                  Inl err \<Rightarrow> (Inl err, h1)
                | Inr rh \<Rightarrow> (Inr (rl @ rh @ CRLF @ ''<h1>501 Not Implemented</h1>''), h1))))"

text \<open>
  \<^verbatim>\<open>getattr(self, name)\<close> on a server object: the attributes the two classes define.
  (The attributes inherited from \<^verbatim>\<open>object\<close> all start with two underscores; no name
  built by \<^verbatim>\<open>'handle_%s'\<close> is one of them.)
\<close>

datatype attr =
    Attr_host
  | Attr_port
  | Attr_start
  | Attr_handle_request
  | Attr_headers
  | Attr_status_codes
  | Attr_response_line
  | Attr_response_headers
  | Attr_handle_GET
  | Attr_HTTP_501_handler

definition server_attrs :: "(string \<times> attr) list" where
  "server_attrs =
     [(''host'', Attr_host), (''port'', Attr_port), (''start'', Attr_start),
      (''handle_request'', Attr_handle_request), (''headers'', Attr_headers),
      (''status_codes'', Attr_status_codes), (''response_line'', Attr_response_line),
      (''response_headers'', Attr_response_headers), (''handle_GET'', Attr_handle_GET),
      (''HTTP_501_handler'', Attr_HTTP_501_handler)]"

definition getattr :: "string \<Rightarrow> error + attr" where
  "getattr name = (case map_of server_attrs name of None \<Rightarrow> Inl AttributeError | Some a \<Rightarrow> Inr a)"

text \<open>\<^verbatim>\<open>'%s' % request.method\<close>.\<close>

definition format_s :: "string option \<Rightarrow> string" where
  "format_s v = (case v of None \<Rightarrow> ''None'' | Some s \<Rightarrow> s)"

text \<open>
  \<^verbatim>\<open>handle_request\<close>: the \<^verbatim>\<open>try\<close> covers the lookup only; the call of the handler is
  outside it. The name \<^verbatim>\<open>handle_request\<close> is itself an attribute, so the method token
  \<^verbatim>\<open>request\<close> selects this function again, with the request object as \<^verbatim>\<open>data\<close>.
  The other attributes are not reachable through a name that starts with \<^verbatim>\<open>handle_\<close>.
\<close>

function handle_request ::
  "server \<Rightarrow> env \<Rightarrow> store \<Rightarrow> pyval \<Rightarrow> (error + string) \<times> store" where
  "handle_request self e h data =
     (case HTTPRequest data of
        Inl err \<Rightarrow> (Inl err, h)
      | Inr request \<Rightarrow>
          (let handler = (case getattr (''handle_'' @ format_s (http_method request)) of
                            Inl err \<Rightarrow> Attr_HTTP_501_handler
                          | Inr a \<Rightarrow> a)
           in if handler = Attr_handle_GET then handle_GET self e h request
              else if handler = Attr_HTTP_501_handler then HTTP_501_handler self h request
              else if handler = Attr_handle_request then handle_request self e h (Request request)
              else (Inl TypeError, h)))"
  by pat_completeness auto
termination
proof (relation "measure (\<lambda>(self, e, h, data). case data of Bytes _ \<Rightarrow> 1 | Request _ \<Rightarrow> (0::nat))")
  show "wf (measure (\<lambda>(self, e, h, data). case data of Bytes _ \<Rightarrow> 1 | Request _ \<Rightarrow> (0::nat)))"
    by simp
next
  fix self :: server and e :: env and h :: store and data :: pyval and request :: request
  assume "HTTPRequest data = Inr request"
  then obtain bs where "data = Bytes bs"
    by (cases data) (simp_all add: HTTPRequest_def parse_def)
  then show "((self, e, h, Request request), (self, e, h, data))
      \<in> measure (\<lambda>(self, e, h, data). case data of Bytes _ \<Rightarrow> 1 | Request _ \<Rightarrow> (0::nat))"
    by simp
qed

declare handle_request.simps [simp del]

section \<open>Notions of the specification\<close>

text \<open>
  The definitions of this section follow the words of the specification; the theorems
  compare them with the functions above.
\<close>

text \<open>One header line, \<^verbatim>\<open>Key: Value\<close> followed by CR LF.\<close>

definition format_header :: "string \<times> string \<Rightarrow> string" where
  "format_header kv = fst kv @ '': '' @ snd kv @ CRLF"

text \<open>
  Key-wise override: every base entry keeps its place and takes the extra value when the
  extra mapping has its key; the extra entries with new keys follow.
\<close>

definition spec_override :: "dict \<Rightarrow> dict \<Rightarrow> dict" where
  "spec_override base extra =
     map (\<lambda>(k, v). (k, case map_of extra k of None \<Rightarrow> v | Some v' \<Rightarrow> v')) base
     @ filter (\<lambda>(k, v). k \<notin> fst ` set base) extra"

definition extra_dict :: "dict option \<Rightarrow> dict" where
  "extra_dict extra_headers = (case extra_headers of None \<Rightarrow> [] | Some other \<Rightarrow> other)"

text \<open>A url path as the GET handler passes it on: no separator at either end.\<close>

definition stripped :: "string \<Rightarrow> bool" where
  "stripped p = (p = [] \<or> (hd p \<noteq> CHR ''/'' \<and> last p \<noteq> CHR ''/''))"

text \<open>Visible entries, the line of one entry, the parent-directory line.\<close>

definition spec_visible :: "string \<Rightarrow> bool" where
  "spec_visible f = (\<not> startswith f ''.'')"

definition spec_entry_html :: "env \<Rightarrow> string \<Rightarrow> string \<Rightarrow> string" where
  "spec_entry_html e dp f =
     (if isdir e (path_join dp f)
      then ''<a href='' @ DQ @ dir_path_to_url_path (cwd e) (path_join dp f) @ DQ @ ''>''
           @ f @ ''/</a>'' @ ''<br>''
      else f @ ''<br>'')"

definition spec_parent_link :: "string \<Rightarrow> string" where
  "spec_parent_link parent_url =
     ''<a href='' @ DQ @ parent_url @ DQ @ ''>[parent directory]</a><br>''"

text \<open>
  Normalisation of a path in the sense of the specification: empty and \<open>.\<close> segments
  are dropped and \<open>..\<close> removes the segment before it. A path is inside the root
  when the normalised root is a prefix of the normalised path.
\<close>

fun spec_collapse :: "string list \<Rightarrow> string list \<Rightarrow> string list" where
  "spec_collapse stack [] = rev stack"
| "spec_collapse stack (c # cs) =
     (if c = [] \<or> c = ''.'' then spec_collapse stack cs
      else if c = ''..'' then spec_collapse (tl stack) cs
      else spec_collapse (c # stack) cs)"

definition spec_normal_components :: "string \<Rightarrow> string list" where
  "spec_normal_components p = spec_collapse [] (split p ''/'')"

definition spec_inside_root :: "string \<Rightarrow> string \<Rightarrow> bool" where
  "spec_inside_root root p =
     (take (length (spec_normal_components root)) (spec_normal_components p)
        = spec_normal_components root)"

definition spec_normalized_url :: "string \<Rightarrow> string" where
  "spec_normalized_url p = ''/'' @ join_str ''/'' (spec_normal_components p)"

section \<open>An example installation\<close>

text \<open>
  The server runs in \<^verbatim>\<open>/srv/www\<close>, which holds a file, a subdirectory and a hidden
  file; the directory above holds the root and one more file. The store holds the
  base headers at reference 0.
\<close>

definition example_fs :: "string \<Rightarrow> node option" where
  "example_fs p =
     (if p = ''/srv/www'' then Some (Dir [''a.txt'', ''sub'', ''.hidden''])
      else if p = ''/srv/www/a.txt'' then Some File
      else if p = ''/srv/www/sub'' then Some (Dir [])
      else if p = ''/srv/www/.hidden'' then Some File
      else if p = ''/srv/www/..'' then Some (Dir [''www'', ''secret.txt''])
      else if p = ''/srv/www/../www'' then Some (Dir [''a.txt'', ''sub'', ''.hidden''])
      else if p = ''/srv/www/../secret.txt'' then Some File
      else None)"

definition example_env :: env where
  "example_env = \<lparr> cwd = ''/srv/www'', fs = example_fs \<rparr>"

definition example_server :: server where
  "example_server = \<lparr> headers = 0 \<rparr>"

definition example_store :: store where
  "example_store = [base_headers]"

definition get_request :: "string \<Rightarrow> request" where
  "get_request u = \<lparr> http_method = Some ''GET'', uri = Some u, http_version = ''1.1'' \<rparr>"

section \<open>Strings and paths\<close>

lemma rstrip_keeps:
  "x \<noteq> [] \<Longrightarrow> last x \<noteq> CHR ''/'' \<Longrightarrow> rstrip (x @ ''/'') os_sep = x"
proof -
  assume ne: "x \<noteq> []" and l: "last x \<noteq> CHR ''/''"
  from ne obtain ys y where x: "x = ys @ [y]"
    by (cases x rule: rev_cases) auto
  with l have "y \<noteq> CHR ''/''" by simp
  with x show ?thesis by (simp add: rstrip_def os_sep_def)
qed

lemma not_all_slashes:
  "x \<noteq> [] \<Longrightarrow> last x \<noteq> CHR ''/'' \<Longrightarrow> x @ ''/'' \<noteq> replicate n (CHR ''/'')"
proof
  assume ne: "x \<noteq> []" and l: "last x \<noteq> CHR ''/''" and eq: "x @ ''/'' = replicate n (CHR ''/'')"
  have "last x \<in> set (x @ ''/'')" using ne by simp
  with eq have "last x \<in> set (replicate n (CHR ''/''))" by simp
  with l show False by auto
qed

lemma dirname_trailing:
  assumes "x \<noteq> []" and "last x \<noteq> CHR ''/''"
  shows "dirname (x @ ''/'') = x"
proof -
  have rf: "rfind (x @ ''/'') (CHR ''/'') = int (length x)"
    by (simp add: rfind_def)
  have "nat (int (length x) + 1) = Suc (length x)"
    by simp
  then have head: "take (nat (rfind (x @ ''/'') (CHR ''/'') + 1)) (x @ ''/'') = x @ ''/''"
    unfolding rf by simp
  have "x @ ''/'' \<noteq> replicate (length (x @ ''/'')) (CHR ''/'')"
    using assms by (rule not_all_slashes)
  then have cond: "x @ ''/'' \<noteq> [] \<and> x @ ''/'' \<noteq> replicate (length (x @ ''/'')) (CHR ''/'')"
    by blast
  show ?thesis
    unfolding dirname_def Let_def head
    using cond by (simp only: if_True rstrip_keeps [OF assms] simp_thms)
qed

lemma dirname_root: "dirname ''/'' = ''/''"
  by (simp add: dirname_def rfind_def)

lemma not_startswith_sep: "b = [] \<or> hd b \<noteq> CHR ''/'' \<Longrightarrow> \<not> startswith b os_sep"
  by (cases b) (auto simp: startswith_def os_sep_def)

lemma not_endswith_sep: "c \<noteq> [] \<Longrightarrow> last c \<noteq> CHR ''/'' \<Longrightarrow> \<not> endswith c os_sep"
proof -
  assume "c \<noteq> []" and l: "last c \<noteq> CHR ''/''"
  then have "drop (length c - 1) c = [last c]"
    by (metis append_butlast_last_id append_eq_conv_conj length_butlast)
  with l show ?thesis by (simp add: endswith_def os_sep_def)
qed

lemma path_join_relative:
  "c \<noteq> [] \<Longrightarrow> last c \<noteq> CHR ''/'' \<Longrightarrow> b = [] \<or> hd b \<noteq> CHR ''/'' \<Longrightarrow>
   path_join c b = c @ ''/'' @ b"
  by (simp add: path_join_def not_startswith_sep not_endswith_sep) (simp add: os_sep_def)

lemma path_join_root:
  "b = [] \<or> hd b \<noteq> CHR ''/'' \<Longrightarrow> path_join ''/'' b = ''/'' @ b"
  by (simp add: path_join_def not_startswith_sep) (simp add: os_sep_def endswith_def)

lemma resolve_empty:
  "c \<noteq> [] \<Longrightarrow> last c \<noteq> CHR ''/'' \<Longrightarrow> url_path_to_dir_path c [] = c"
  using dirname_trailing [of c] by (simp add: url_path_to_dir_path_def path_join_relative)

lemma resolve_nonempty:
  assumes "c \<noteq> []" and "last c \<noteq> CHR ''/''" and "u \<noteq> []" and "stripped u"
  shows "url_path_to_dir_path c u = c @ ''/'' @ u"
proof -
  from assms have hd: "hd (u @ ''/'') \<noteq> CHR ''/''" and l: "last (c @ ''/'' @ u) \<noteq> CHR ''/''"
    by (auto simp: stripped_def)
  have "path_join c (u @ os_sep) = (c @ ''/'' @ u) @ ''/''"
    using path_join_relative [OF assms(1,2), of "u @ ''/''"] hd by (simp add: os_sep_def)
  then show ?thesis
    using dirname_trailing [OF _ l] assms(3) by (simp add: url_path_to_dir_path_def)
qed

lemma resolve_root_cwd:
  assumes "stripped u"
  shows "url_path_to_dir_path ''/'' u = ''/'' @ u"
proof (cases "u = []")
  case True
  then show ?thesis
    using path_join_root [of "[]"] by (simp add: url_path_to_dir_path_def dirname_root)
next
  case False
  with assms have hd: "hd (u @ ''/'') \<noteq> CHR ''/''" and l: "last (''/'' @ u) \<noteq> CHR ''/''"
    by (auto simp: stripped_def)
  have "path_join ''/'' (u @ os_sep) = (''/'' @ u) @ ''/''"
    using path_join_root [of "u @ ''/''"] hd by (simp add: os_sep_def)
  then show ?thesis
    using dirname_trailing [OF _ l] False by (simp add: url_path_to_dir_path_def)
qed

lemma rstrip_prefix: "s = rstrip s cs @ rev (takeWhile (\<lambda>c. c \<in> set cs) (rev s))"
proof -
  have "rev (dropWhile (\<lambda>c. c \<in> set cs) (rev s)) @ rev (takeWhile (\<lambda>c. c \<in> set cs) (rev s))
      = rev (takeWhile (\<lambda>c. c \<in> set cs) (rev s) @ dropWhile (\<lambda>c. c \<in> set cs) (rev s))"
    by (simp only: rev_append)
  also have "\<dots> = s"
    by (simp only: takeWhile_dropWhile_id rev_rev_ident)
  finally show ?thesis by (simp only: rstrip_def)
qed

lemma strip_stripped: "stripped (strip s ''/'')"
proof (cases "strip s ''/'' = []")
  case True
  then show ?thesis by (simp add: stripped_def)
next
  case False
  let ?t = "lstrip s ''/''"
  from False have r: "rstrip ?t ''/'' \<noteq> []" by (simp add: strip_def)
  then have t: "?t \<noteq> []" by (auto simp: rstrip_def)
  have "hd ?t \<noteq> CHR ''/''"
    using t hd_dropWhile [of "\<lambda>c. c \<in> set ''/''" s] by (simp add: lstrip_def)
  moreover have "hd ?t = hd (rstrip ?t ''/'')"
    using rstrip_prefix [of ?t "''/''"] r by (metis hd_append2)
  moreover have "last (rstrip ?t ''/'') \<noteq> CHR ''/''"
  proof -
    let ?d = "dropWhile (\<lambda>c. c \<in> set ''/'') (rev ?t)"
    from r have d: "?d \<noteq> []" by (simp add: rstrip_def)
    then have "hd ?d \<noteq> CHR ''/''" using hd_dropWhile [of "\<lambda>c. c \<in> set ''/''" "rev ?t"] by simp
    with d show ?thesis by (simp add: rstrip_def last_rev)
  qed
  ultimately show ?thesis by (simp add: stripped_def strip_def)
qed

lemma split_aux_nonempty: "split_aux sep cur s \<noteq> []"
  by (induction sep cur s rule: split_aux.induct) auto

lemma join_split_aux: "join_str sep (split_aux sep cur s) = cur @ s"
proof (induction sep cur s rule: split_aux.induct)
  case (1 sep cur)
  then show ?case by simp
next
  case (2 sep cur c cs)
  show ?case
  proof (cases "sep \<noteq> [] \<and> startswith (c # cs) sep")
    case True
    obtain y ys where ys: "split_aux sep [] (drop (length sep) (c # cs)) = y # ys"
      using split_aux_nonempty by (meson list.exhaust)
    from True have "sep @ drop (length sep) (c # cs) = c # cs"
      by (metis append_take_drop_id startswith_def)
    with 2(1) [OF True] True ys show ?thesis by simp
  next
    case False
    with 2(2) show ?thesis by auto
  qed
qed

lemma replace_same: "replace s sep sep = s"
  by (simp add: replace_def split_def join_split_aux)

lemma unresolve_under:
  "dir_path_to_url_path c (c @ ''/'' @ u) = ''/'' @ u"
  by (simp add: dir_path_to_url_path_def startswith_def os_sep_def replace_same)

lemma unresolve_self: "dir_path_to_url_path c c = ''/''"
  by (simp add: dir_path_to_url_path_def startswith_def os_sep_def replace_same)

lemma unresolve_no_prefix: "\<not> startswith d c \<Longrightarrow> dir_path_to_url_path c d = ''/''"
  by (simp add: dir_path_to_url_path_def)

section \<open>Dictionaries and the header block\<close>

lemma response_line_200: "response_line 200 = Inr (''HTTP/1.1 200 OK'' @ CRLF)"
  by (simp add: response_line_def status_codes_def encode_def str_int_def str_nat.simps)

lemma response_line_404: "response_line 404 = Inr (''HTTP/1.1 404 Not Found'' @ CRLF)"
  by (simp add: response_line_def status_codes_def encode_def str_int_def str_nat.simps)

lemma response_line_501: "response_line 501 = Inr (''HTTP/1.1 501 Not Implemented'' @ CRLF)"
  by (simp add: response_line_def status_codes_def encode_def str_int_def str_nat.simps)

lemma map_replace_absent:
  "k \<notin> fst ` set d \<Longrightarrow> map (\<lambda>(k', v'). (k', if k' = k then v else v')) d = d"
  by (induction d) auto

lemma dict_setitem_present:
  "distinct (map fst d) \<Longrightarrow> k \<in> fst ` set d \<Longrightarrow>
   dict_setitem d k v = map (\<lambda>(k', v'). (k', if k' = k then v else v')) d"
proof (induction d)
  case Nil
  then show ?case by simp
next
  case (Cons a d)
  obtain k' v' where a: "a = (k', v')" by (cases a)
  show ?case
  proof (cases "k' = k")
    case True
    with Cons.prems a have "k \<notin> fst ` set d" by auto
    then show ?thesis using True a by (simp add: map_replace_absent)
  next
    case False
    with Cons a show ?thesis by auto
  qed
qed

lemma dict_setitem_absent:
  "k \<notin> fst ` set d \<Longrightarrow> dict_setitem d k v = d @ [(k, v)]"
  by (induction d) auto

lemma dict_setitem_keys_present:
  "k \<in> fst ` set d \<Longrightarrow> map fst (dict_setitem d k v) = map fst d"
  by (induction d) force+

lemma dict_setitem_distinct:
  "distinct (map fst d) \<Longrightarrow> distinct (map fst (dict_setitem d k v))"
  by (cases "k \<in> fst ` set d") (simp_all add: dict_setitem_keys_present dict_setitem_absent)

lemma dict_update_override:
  "distinct (map fst d) \<Longrightarrow> distinct (map fst other) \<Longrightarrow>
   dict_update d other = spec_override d other"
proof (induction other arbitrary: d)
  case Nil
  then show ?case by (simp add: spec_override_def)
next
  case (Cons kv other)
  obtain k v where kv: "kv = (k, v)" by (cases kv)
  from Cons.prems kv have fresh: "k \<notin> fst ` set other" and dist: "distinct (map fst other)"
    by auto
  from fresh have none: "map_of other k = None"
    by (simp add: map_of_eq_None_iff)
  have step: "dict_update d (kv # other) = spec_override (dict_setitem d k v) other"
    using Cons.IH [OF dict_setitem_distinct [OF Cons.prems(1)] dist] kv by simp
  show ?case
  proof (cases "k \<in> fst ` set d")
    case True
    have keys: "fst ` set (dict_setitem d k v) = fst ` set d"
      using dict_setitem_keys_present [OF True, of v] by (metis list.set_map)
    have 1: "map (\<lambda>(k', v'). (k', case map_of other k' of None \<Rightarrow> v' | Some w \<Rightarrow> w))
               (dict_setitem d k v)
           = map (\<lambda>(k', v'). (k', case map_of (kv # other) k' of None \<Rightarrow> v' | Some w \<Rightarrow> w)) d"
      using none by (auto simp: dict_setitem_present [OF Cons.prems(1) True] kv)
    have 2: "filter (\<lambda>(k', v'). k' \<notin> fst ` set d) (kv # other)
           = filter (\<lambda>(k', v'). k' \<notin> fst ` set d) other"
      using True kv by simp
    have "spec_override (dict_setitem d k v) other = spec_override d (kv # other)"
      unfolding spec_override_def list.set_map keys 1 2 ..
    with step show ?thesis by simp
  next
    case False
    have 1: "map (\<lambda>(k', v'). (k', case map_of other k' of None \<Rightarrow> v' | Some w \<Rightarrow> w)) d
           = map (\<lambda>(k', v'). (k', case map_of (kv # other) k' of None \<Rightarrow> v' | Some w \<Rightarrow> w)) d"
      using False kv by (auto simp: rev_image_eqI)
    have 2: "filter (\<lambda>(k', v'). k' \<notin> fst ` set (d @ [(k, v)])) other
        = filter (\<lambda>(k', v'). k' \<notin> fst ` set d) other"
    proof -
      from fresh have "\<And>b. (k, b) \<notin> set other" by force
      then show ?thesis by (auto intro!: filter_cong)
    qed
    have "spec_override (d @ [(k, v)]) other = spec_override d (kv # other)"
      unfolding spec_override_def list.set_map 2 using 1 none False kv by simp
    with step show ?thesis by (simp add: dict_setitem_absent [OF False])
  qed
qed

lemma headers_loop_keys:
  "set ks \<subseteq> fst ` set d \<Longrightarrow>
   headers_loop d ks acc =
     Inr (acc @ concat (map (\<lambda>k. k @ '': '' @ the (map_of d k) @ CRLF) ks))"
proof (induction ks arbitrary: acc)
  case Nil
  then show ?case by simp
next
  case (Cons k ks)
  from Cons.prems have "map_of d k \<noteq> None"
    by (simp add: map_of_eq_None_iff)
  then obtain v where "map_of d k = Some v" by auto
  with Cons show ?case by (simp add: dict_getitem_def)
qed

lemma headers_loop_all:
  assumes "distinct (map fst d)"
  shows "headers_loop d (map fst d) [] = Inr (concat (map format_header d))"
proof -
  have "\<And>x. x \<in> set d \<Longrightarrow> the (map_of d (fst x)) = snd x"
    using assms by (metis map_of_is_SomeI option.sel prod.collapse)
  then have "map (\<lambda>k. k @ '': '' @ the (map_of d k) @ CRLF) (map fst d) = map format_header d"
    by (simp add: format_header_def)
  then have eq: "concat (map (\<lambda>k. k @ '': '' @ the (map_of d k) @ CRLF) (map fst d))
      = concat (map format_header d)"
    by (rule arg_cong)
  have "headers_loop d (map fst d) []
      = Inr ([] @ concat (map (\<lambda>k. k @ '': '' @ the (map_of d k) @ CRLF) (map fst d)))"
    by (rule headers_loop_keys) simp
  then show ?thesis
    unfolding eq by simp
qed

lemma dict_update_distinct:
  "distinct (map fst d) \<Longrightarrow> distinct (map fst (dict_update d other))"
  by (induction other arbitrary: d) (auto simp: dict_setitem_distinct)

lemma response_headers_store:
  "response_headers self h extra_headers =
     (case headers_loop (dict_update (h ! headers self) (extra_dict extra_headers))
             (map fst (dict_update (h ! headers self) (extra_dict extra_headers))) [] of
        Inl err \<Rightarrow> Inl err
      | Inr hs \<Rightarrow> Inr hs,
      h @ [dict_update (h ! headers self) (extra_dict extra_headers)])"
  by (cases extra_headers)
     (simp_all add: response_headers_def store_copy_def store_update_def extra_dict_def
        encode_def Let_def split: sum.splits)

lemma response_headers_value:
  assumes "distinct (map fst (h ! headers self))"
    and "distinct (map fst (extra_dict extra_headers))"
  shows "response_headers self h extra_headers =
     (Inr (concat (map format_header (spec_override (h ! headers self) (extra_dict extra_headers)))),
      h @ [spec_override (h ! headers self) (extra_dict extra_headers)])"
proof -
  let ?d = "spec_override (h ! headers self) (extra_dict extra_headers)"
  have upd: "dict_update (h ! headers self) (extra_dict extra_headers) = ?d"
    using assms by (rule dict_update_override)
  have "distinct (map fst ?d)"
    unfolding upd [symmetric] using assms(1) by (rule dict_update_distinct)
  then have "headers_loop ?d (map fst ?d) [] = Inr (concat (map format_header ?d))"
    by (rule headers_loop_all)
  then show ?thesis
    by (simp add: response_headers_store upd)
qed

lemma response_headers_None:
  assumes "headers self < length h" and "h ! headers self = base_headers"
  shows "response_headers self h None =
     (Inr (''Server: CrudeServer'' @ CRLF @ ''Content-Type: text/html'' @ CRLF), h @ [base_headers])"
  using assms
  by (simp add: response_headers_store extra_dict_def base_headers_def dict_getitem_def)

lemma response_headers_Inr:
  "\<exists>hs. fst (response_headers self h extra_headers) = Inr hs"
proof -
  let ?d = "dict_update (h ! headers self) (extra_dict extra_headers)"
  have "headers_loop ?d (map fst ?d) [] =
      Inr ([] @ concat (map (\<lambda>k. k @ '': '' @ the (map_of ?d k) @ CRLF) (map fst ?d)))"
    by (rule headers_loop_keys) simp
  then show ?thesis
    by (simp add: response_headers_store)
qed

lemma DirListing_missing:
  "fs e (url_path_to_dir_path (cwd e) u) = None \<Longrightarrow> DirListing e u = Inl FileNotFoundError"
  by (simp add: DirListing_def path_exists_def Let_def)

lemma DirListing_present:
  "fs e (url_path_to_dir_path (cwd e) u) = Some n \<Longrightarrow>
   DirListing e u = Inr \<lparr> dir_path = url_path_to_dir_path (cwd e) u,
                          is_root_dir = (u = []),
                          parent_dir = (if u \<noteq> [] then dirname (url_path_to_dir_path (cwd e) u) else []) \<rparr>"
  by (simp add: DirListing_def path_exists_def Let_def)

section \<open>The example installation, evaluated\<close>

lemma example_wf: "headers example_server < length example_store
    \<and> example_store ! headers example_server = base_headers"
  by (simp add: example_server_def example_store_def)

lemma strip_eval: "strip ''/missing'' ''/'' = ''missing''" "strip ''/a.txt'' ''/'' = ''a.txt''"
  "strip ''/..'' ''/'' = ''..''" "strip ''/sub'' ''/'' = ''sub''" "strip ''/'' ''/'' = []"
  by (simp_all add: strip_def lstrip_def rstrip_def)

lemma resolve_eval:
  "url_path_to_dir_path ''/srv/www'' ''missing'' = ''/srv/www/missing''"
  "url_path_to_dir_path ''/srv/www'' ''a.txt'' = ''/srv/www/a.txt''"
  "url_path_to_dir_path ''/srv/www'' ''..'' = ''/srv/www/..''"
  by (simp_all add: resolve_nonempty stripped_def)

section \<open>Parsing and dispatch\<close>

lemma parse_no_uri:
  "HTTPRequest (Bytes (''GET'' @ CRLF @ CRLF)) =
     Inr \<lparr> http_method = Some ''GET'', uri = None, http_version = ''1.1'' \<rparr>"
  by (simp add: HTTPRequest_def parse_def split_def CRLF_def startswith_def decode_def byte_def)

lemma parse_request_token:
  "HTTPRequest (Bytes (''request / HTTP/1.1'' @ CRLF @ CRLF)) =
     Inr \<lparr> http_method = Some ''request'', uri = Some ''/'', http_version = ''HTTP/1.1'' \<rparr>"
  by (simp add: HTTPRequest_def parse_def split_def CRLF_def startswith_def decode_def byte_def)

lemma parse_object: "HTTPRequest (Request r) = Inl AttributeError"
  by (simp add: HTTPRequest_def parse_def)

lemma HTTP_501_handler_value:
  assumes "headers self < length h" and "h ! headers self = base_headers"
  shows "fst (HTTP_501_handler self h request) =
     Inr (''HTTP/1.1 501 Not Implemented'' @ CRLF
          @ ''Server: CrudeServer'' @ CRLF @ ''Content-Type: text/html'' @ CRLF
          @ CRLF @ ''<h1>501 Not Implemented</h1>'')"
  using assms by (simp add: HTTP_501_handler_def response_line_501 response_headers_None)

lemma handle_request_other_method:
  assumes "HTTPRequest data = Inr request"
    and "http_method request = Some m"
    and "m \<noteq> ''GET''" and "m \<noteq> ''request''"
    and "headers self < length h" and "h ! headers self = base_headers"
  shows "fst (handle_request self e h data) =
     Inr (''HTTP/1.1 501 Not Implemented'' @ CRLF
          @ ''Server: CrudeServer'' @ CRLF @ ''Content-Type: text/html'' @ CRLF
          @ CRLF @ ''<h1>501 Not Implemented</h1>'')"
proof -
  have "handle_request self e h data = HTTP_501_handler self h request"
    using assms(3,4)
    by (subst handle_request.simps)
       (simp only: assms(1), simp add: assms(2) getattr_def server_attrs_def format_s_def)
  then show ?thesis
    using HTTP_501_handler_value [OF assms(5,6)] by simp
qed

lemma parse_method_Some:
  "HTTPRequest data = Inr request \<Longrightarrow> \<exists>m. http_method request = Some m"
  by (auto simp: HTTPRequest_def parse_def Let_def split: pyval.splits list.splits sum.splits)

section \<open>The GET handler\<close>

text \<open>
  Claim C4. For every GET request whose URI, stripped of slashes and resolved against the
  working directory, names a path that does not exist, \<^verbatim>\<open>handle_GET\<close> returns the
  404 response: status line, the two base headers, a blank line and the body
  \<^verbatim>\<open><h1>404 Not Found</h1>\<close>. The \<^verbatim>\<open>FileNotFoundError\<close> of the constructor is caught;
  the handler returns a value and raises nothing.
\<close>

theorem handle_GET_not_found:
  assumes "uri request = Some u"
    and "fs e (url_path_to_dir_path (cwd e) (strip u ''/'')) = None"
    and "headers self < length h"
    and "h ! headers self = base_headers"
  shows "fst (handle_GET self e h request) =
     Inr (''HTTP/1.1 404 Not Found'' @ CRLF
          @ ''Server: CrudeServer'' @ CRLF @ ''Content-Type: text/html'' @ CRLF
          @ CRLF @ ''<h1>404 Not Found</h1>'')"
  using assms
  by (simp add: handle_GET_def handle_GET_try_def DirListing_missing response_line_404
      response_headers_None)

theorem handle_GET_not_found_witness:
  "uri (get_request ''/missing'') = Some ''/missing''
   \<and> fs example_env (url_path_to_dir_path (cwd example_env) (strip ''/missing'' ''/'')) = None
   \<and> fst (handle_GET example_server example_env example_store (get_request ''/missing'')) =
     Inr (''HTTP/1.1 404 Not Found'' @ CRLF
          @ ''Server: CrudeServer'' @ CRLF @ ''Content-Type: text/html'' @ CRLF
          @ CRLF @ ''<h1>404 Not Found</h1>'')"
proof -
  have 1: "uri (get_request ''/missing'') = Some ''/missing''"
    by (simp add: get_request_def)
  have 2: "fs example_env (url_path_to_dir_path (cwd example_env) (strip ''/missing'' ''/'')) = None"
    by (simp add: example_env_def example_fs_def strip_eval resolve_eval)
  have 3: "headers example_server < length example_store"
    and 4: "example_store ! headers example_server = base_headers"
    using example_wf by simp_all
  show ?thesis
    using 1 2 handle_GET_not_found [OF 1 2 3 4] by simp
qed

text \<open>
  Claim C9. For every GET request whose stripped URI resolves to a path that exists and is
  not a directory, the constructor of \<^verbatim>\<open>DirListing\<close> succeeds (it only tests existence),
  the enumeration of the directory then raises \<^verbatim>\<open>NotADirectoryError\<close>, which the
  \<^verbatim>\<open>except FileNotFoundError\<close> clause does not catch: the handler produces no response,
  neither 200 nor 404.
\<close>

theorem handle_GET_not_a_directory:
  assumes "uri request = Some u"
    and "fs e (url_path_to_dir_path (cwd e) (strip u ''/'')) = Some File"
  shows "(\<exists>dl. DirListing e (strip u ''/'') = Inr dl)
       \<and> fst (handle_GET self e h request) = Inl NotADirectoryError"
proof -
  let ?p = "strip u ''/''"
  obtain hs where hs: "fst (response_headers self h (Some [(''Content-Type'', ''text/html'')])) = Inr hs"
    using response_headers_Inr by blast
  obtain r h1 where rh: "response_headers self h (Some [(''Content-Type'', ''text/html'')]) = (r, h1)"
    by (cases "response_headers self h (Some [(''Content-Type'', ''text/html'')])")
  with hs have r: "r = Inr hs" by simp
  have dl: "DirListing e ?p = Inr \<lparr> dir_path = url_path_to_dir_path (cwd e) ?p,
                          is_root_dir = (?p = []),
                          parent_dir = (if ?p \<noteq> [] then dirname (url_path_to_dir_path (cwd e) ?p) else []) \<rparr>"
    using assms(2) by (rule DirListing_present)
  have "get_hyperlinked_dir_listing e \<lparr> dir_path = url_path_to_dir_path (cwd e) ?p,
                          is_root_dir = (?p = []),
                          parent_dir = (if ?p \<noteq> [] then dirname (url_path_to_dir_path (cwd e) ?p) else []) \<rparr>
        = Inl NotADirectoryError"
    using assms(2) by (simp add: get_hyperlinked_dir_listing_def listdir_def)
  then have "handle_GET_try self e h ?p = (Inl NotADirectoryError, h1)"
    by (simp add: handle_GET_try_def dl response_line_200 rh r)
  then have "fst (handle_GET self e h request) = Inl NotADirectoryError"
    using assms(1) by (simp add: handle_GET_def)
  with dl show ?thesis by simp
qed

theorem handle_GET_not_a_directory_witness:
  "uri (get_request ''/a.txt'') = Some ''/a.txt''
   \<and> fs example_env (url_path_to_dir_path (cwd example_env) (strip ''/a.txt'' ''/'')) = Some File
   \<and> fst (handle_GET example_server example_env example_store (get_request ''/a.txt''))
       = Inl NotADirectoryError"
proof -
  have 1: "uri (get_request ''/a.txt'') = Some ''/a.txt''"
    by (simp add: get_request_def)
  have 2: "fs example_env (url_path_to_dir_path (cwd example_env) (strip ''/a.txt'' ''/'')) = Some File"
    by (simp add: example_env_def example_fs_def strip_eval resolve_eval)
  show ?thesis
    using 1 2 handle_GET_not_a_directory [OF 1 2] by simp
qed

section \<open>The header block\<close>

text \<open>
  Claim C8. For every extra-header mapping, absent or present, the header block of
  \<^verbatim>\<open>response_headers\<close> is built from the two base entries (Server, Content-Type) with
  each base value replaced by the extra value of the same key, followed by the extra
  entries with new keys, every entry formatted as \<^verbatim>\<open>Key: Value\<close> and CR LF, in the
  insertion order of the dictionary. The hypotheses say that the reference of the base
  headers is valid and names the base entries, and that the extra mapping is a
  dictionary (its keys are distinct).
\<close>

theorem response_headers_override:
  assumes "headers self < length h"
    and "h ! headers self = base_headers"
    and "distinct (map fst (extra_dict extra_headers))"
  shows "fst (response_headers self h extra_headers) =
     Inr (concat (map format_header (spec_override base_headers (extra_dict extra_headers))))"
  using response_headers_value [of h self extra_headers] assms
  by (simp add: base_headers_def)

theorem response_headers_override_witness:
  "headers example_server < length example_store
   \<and> example_store ! headers example_server = base_headers
   \<and> distinct (map fst (extra_dict (Some [(''Content-Type'', ''text/plain''), (''X-Extra'', ''1'')])))
   \<and> fst (response_headers example_server example_store
           (Some [(''Content-Type'', ''text/plain''), (''X-Extra'', ''1'')])) =
     Inr (''Server: CrudeServer'' @ CRLF @ ''Content-Type: text/plain'' @ CRLF @ ''X-Extra: 1'' @ CRLF)"
proof -
  have 1: "headers example_server < length example_store"
    and 2: "example_store ! headers example_server = base_headers"
    using example_wf by simp_all
  have 3: "distinct (map fst (extra_dict (Some [(''Content-Type'', ''text/plain''), (''X-Extra'', ''1'')])))"
    by (simp add: extra_dict_def)
  have 4: "concat (map format_header (spec_override base_headers
              (extra_dict (Some [(''Content-Type'', ''text/plain''), (''X-Extra'', ''1'')]))))
         = ''Server: CrudeServer'' @ CRLF @ ''Content-Type: text/plain'' @ CRLF @ ''X-Extra: 1'' @ CRLF"
    by (simp add: extra_dict_def spec_override_def base_headers_def format_header_def)
  show ?thesis
    using 1 2 3 response_headers_override [OF 1 2 3] unfolding 4 by simp
qed

text \<open>
  Claim C10. Every call of \<^verbatim>\<open>response_headers\<close>, with or without extra headers, leaves
  the shared dictionary \<^verbatim>\<open>HTTPServer.headers\<close> as it was: the store after the call is the
  store before it with one new object (the copy) appended, and the bytes of a later call
  are those the call produces in the store before the earlier call.
\<close>

theorem response_headers_frame:
  assumes "headers self < length h"
  shows "snd (response_headers self h extra1) ! headers self = h ! headers self
       \<and> take (length h) (snd (response_headers self h extra1)) = h
       \<and> fst (response_headers self (snd (response_headers self h extra1)) extra2)
           = fst (response_headers self h extra2)"
  using assms by (simp add: response_headers_store nth_append)

theorem response_headers_frame_witness:
  "headers example_server < length example_store
   \<and> snd (response_headers example_server example_store (Some [(''Server'', ''Other'')])) ! 0
       = base_headers
   \<and> fst (response_headers example_server
            (snd (response_headers example_server example_store (Some [(''Server'', ''Other'')]))) None)
       = Inr (''Server: CrudeServer'' @ CRLF @ ''Content-Type: text/html'' @ CRLF)"
proof -
  have 1: "headers example_server < length example_store"
    using example_wf by simp
  have 2: "fst (response_headers example_server example_store None)
      = Inr (''Server: CrudeServer'' @ CRLF @ ''Content-Type: text/html'' @ CRLF)"
    using response_headers_None [of example_server example_store] example_wf by simp
  have 3: "headers example_server = 0" "example_store ! 0 = base_headers"
    by (simp_all add: example_server_def example_store_def)
  show ?thesis
    using 1 response_headers_frame [OF 1, of "Some [(''Server'', ''Other'')]" None]
    unfolding 2 3 by simp
qed

section \<open>Requests the dispatcher does not answer\<close>

text \<open>
  Claim C2. The request \<^verbatim>\<open>GET\r\n\r\n\<close> has a method token and no URI token. The claim
  says that the parser yields an empty URI and the GET handler serves the root listing
  with a 200 response. In the code the parser leaves \<^verbatim>\<open>uri\<close> at \<^verbatim>\<open>None\<close>, and
  \<^verbatim>\<open>request.uri.strip('/')\<close> raises \<^verbatim>\<open>AttributeError\<close>, which nothing catches: for every
  server, filesystem and store no response is produced.
\<close>

theorem handle_request_no_uri:
  "HTTPRequest (Bytes (''GET'' @ CRLF @ CRLF)) =
     Inr \<lparr> http_method = Some ''GET'', uri = None, http_version = ''1.1'' \<rparr>
   \<and> fst (handle_request self e h (Bytes (''GET'' @ CRLF @ CRLF))) = Inl AttributeError"
proof -
  have "handle_request self e h (Bytes (''GET'' @ CRLF @ CRLF)) = (Inl AttributeError, h)"
    by (subst handle_request.simps)
       (simp only: parse_no_uri, simp add: getattr_def server_attrs_def format_s_def handle_GET_def)
  with parse_no_uri show ?thesis
    by simp
qed

text \<open>
  Claim C3. The claim says that every method token other than GET gets the 501
  response. The method token \<^verbatim>\<open>request\<close> makes the lookup by name find
  \<^verbatim>\<open>handle_request\<close> itself; called with the request object, it fails in the parser
  with \<^verbatim>\<open>AttributeError\<close>, outside every \<^verbatim>\<open>try\<close>. (For every other token the 501
  response is returned: lemma \<open>handle_request_other_method\<close>.)
\<close>

theorem handle_request_method_request:
  "fst (handle_request self e h (Bytes (''request / HTTP/1.1'' @ CRLF @ CRLF))) = Inl AttributeError"
proof -
  let ?r = "\<lparr> http_method = Some ''request'', uri = Some ''/'', http_version = ''HTTP/1.1'' \<rparr>"
  have inner: "handle_request self e h (Request ?r) = (Inl AttributeError, h)"
    by (subst handle_request.simps) (simp add: parse_object)
  have "handle_request self e h (Bytes (''request / HTTP/1.1'' @ CRLF @ CRLF)) = (Inl AttributeError, h)"
    by (subst handle_request.simps)
       (simp only: parse_request_token, simp add: getattr_def server_attrs_def format_s_def inner)
  then show ?thesis by simp
qed

section \<open>The rendered listing\<close>

lemma listing_loop_entries:
  "listing_loop e dp files html =
     html @ concat (map (spec_entry_html e dp) (filter spec_visible files))"
  by (induction files arbitrary: html) (simp_all add: spec_entry_html_def spec_visible_def Let_def)

lemma example_root_listing:
  "DirListing example_env [] = Inr \<lparr> dir_path = ''/srv/www'', is_root_dir = True, parent_dir = [] \<rparr>"
  by (simp add: DirListing_def example_env_def resolve_empty path_exists_def example_fs_def)

lemma example_sub_listing:
  "DirListing example_env ''sub'' =
     Inr \<lparr> dir_path = ''/srv/www/sub'', is_root_dir = False, parent_dir = ''/srv/www'' \<rparr>"
proof -
  have "url_path_to_dir_path ''/srv/www'' ''sub'' = ''/srv/www/sub''"
    by (simp add: resolve_nonempty stripped_def)
  moreover have "dirname ''/srv/www/sub'' = ''/srv/www''"
    by (simp add: dirname_def rfind_def rstrip_def os_sep_def)
  ultimately show ?thesis
    by (simp add: DirListing_def example_env_def path_exists_def example_fs_def)
qed

lemma example_root_entries:
  "concat (map (spec_entry_html example_env ''/srv/www'')
      (filter spec_visible [''a.txt'', ''sub'', ''.hidden'']))
   = ''a.txt<br><a href='' @ DQ @ ''/sub'' @ DQ @ ''>sub/</a><br>''"
proof -
  have j: "path_join ''/srv/www'' ''a.txt'' = ''/srv/www/a.txt''"
      "path_join ''/srv/www'' ''sub'' = ''/srv/www/sub''"
    by (simp_all add: path_join_relative)
  have u: "dir_path_to_url_path ''/srv/www'' ''/srv/www/sub'' = ''/sub''"
    using unresolve_under [of "''/srv/www''" "''sub''"] by simp
  show ?thesis
    by (simp add: spec_visible_def startswith_def spec_entry_html_def j u isdir_def
        example_env_def example_fs_def)
qed

text \<open>
  Claim C6. For every directory that is listed, the entry lines of the document are
  the lines of the entries whose name does not begin with a dot, in enumeration order,
  one line for each such entry and none for the others: the name and \<^verbatim>\<open><br>\<close> for an
  entry that is not a directory; for a directory a hyperlink whose target is the url
  path of the entry's full path, around the name and a slash, and \<^verbatim>\<open><br>\<close>. The document
  is the opening tags, the parent line when the listing is not the root, these lines
  and the closing tags.
\<close>

theorem listing_entries:
  assumes "fs e (dir_path self) = Some (Dir files)"
  shows "get_hyperlinked_dir_listing e self =
     Inr (''<html><body>''
          @ (if is_root_dir self then []
             else spec_parent_link (dir_path_to_url_path (cwd e) (parent_dir self)))
          @ concat (map (spec_entry_html e (dir_path self)) (filter spec_visible files))
          @ ''</body></html>'')"
  using assms
  by (simp add: get_hyperlinked_dir_listing_def listdir_def listing_loop_entries
      spec_parent_link_def Let_def)

theorem listing_entries_witness:
  "fs example_env (dir_path \<lparr> dir_path = ''/srv/www'', is_root_dir = True, parent_dir = [] \<rparr>)
     = Some (Dir [''a.txt'', ''sub'', ''.hidden''])
   \<and> get_hyperlinked_dir_listing example_env
       \<lparr> dir_path = ''/srv/www'', is_root_dir = True, parent_dir = [] \<rparr>
     = Inr (''<html><body>'' @ ''a.txt<br><a href='' @ DQ @ ''/sub'' @ DQ @ ''>sub/</a><br>''
            @ ''</body></html>'')"
proof -
  let ?dl = "\<lparr> dir_path = ''/srv/www'', is_root_dir = True, parent_dir = [] \<rparr>"
  have 1: "fs example_env (dir_path ?dl) = Some (Dir [''a.txt'', ''sub'', ''.hidden''])"
    by (simp add: example_env_def example_fs_def)
  have 2: "concat (map (spec_entry_html example_env (dir_path ?dl))
      (filter spec_visible [''a.txt'', ''sub'', ''.hidden'']))
   = ''a.txt<br><a href='' @ DQ @ ''/sub'' @ DQ @ ''>sub/</a><br>''"
    using example_root_entries by simp
  show ?thesis
    using 1 listing_entries [OF 1] unfolding 2 by simp
qed

lemma entry_line_not_parent_line:
  assumes "CHR ''/'' \<notin> set f"
  shows "spec_entry_html e dp f \<noteq> spec_parent_link url"
proof (cases "isdir e (path_join dp f)")
  case True
  let ?a = "''<a href='' @ DQ @ dir_path_to_url_path (cwd e) (path_join dp f) @ DQ @ ''>'' @ f"
  let ?b = "''<a href='' @ DQ @ url @ DQ @ ''>[parent directory''"
  have "?a @ ''/</a><br>'' \<noteq> ?b @ '']</a><br>''"
    by (subst append_eq_append_conv) simp_all
  then show ?thesis
    using True by (simp add: spec_entry_html_def spec_parent_link_def)
next
  case False
  let ?b = "''<a href='' @ DQ @ url @ DQ @ ''>[parent directory]</a>''"
  have "f \<noteq> ?b"
    using assms by auto
  then have "f @ ''<br>'' \<noteq> ?b @ ''<br>''"
    by (subst append_eq_append_conv) simp_all
  then show ?thesis
    using False by (simp add: spec_entry_html_def spec_parent_link_def)
qed

text \<open>
  Claim C7. \<^verbatim>\<open>is_root_dir\<close> holds exactly when the url path given to the constructor is
  empty. The document of the root consists of the opening tags, the entry lines and the
  closing tags, with no parent-directory line; for every non-empty url path whose
  directory exists and can be listed, the document has exactly one parent-directory
  line, right after the opening tags, and its target is the url path of the directory
  name of the resolved path. No entry line is a parent-directory line, whatever its
  target: the line of a directory ends with a slash before the closing tag, and the
  name of a file contains no slash (the names of an enumeration never do).
\<close>

theorem parent_link:
  assumes "DirListing e u = Inr dl"
    and "fs e (dir_path dl) = Some (Dir files)"
  shows "is_root_dir dl = (u = [])
       \<and> get_hyperlinked_dir_listing e dl =
           Inr (''<html><body>''
                @ (if u = [] then []
                   else spec_parent_link (dir_path_to_url_path (cwd e) (dirname (dir_path dl))))
                @ concat (map (spec_entry_html e (dir_path dl)) (filter spec_visible files))
                @ ''</body></html>'')
       \<and> (CHR ''/'' \<notin> set f \<longrightarrow> spec_entry_html e (dir_path dl) f \<noteq> spec_parent_link url)"
proof -
  from assms(1) have dl: "dir_path dl = url_path_to_dir_path (cwd e) u"
    "is_root_dir dl = (u = [])"
    "parent_dir dl = (if u \<noteq> [] then dirname (url_path_to_dir_path (cwd e) u) else [])"
    by (auto simp: DirListing_def Let_def split: if_splits)
  have "get_hyperlinked_dir_listing e dl =
           Inr (''<html><body>''
                @ (if u = [] then []
                   else spec_parent_link (dir_path_to_url_path (cwd e) (dirname (dir_path dl))))
                @ concat (map (spec_entry_html e (dir_path dl)) (filter spec_visible files))
                @ ''</body></html>'')"
    using assms(2)
    by (simp add: get_hyperlinked_dir_listing_def listdir_def listing_loop_entries
      spec_parent_link_def Let_def dl)
  with dl(2) show ?thesis
    using entry_line_not_parent_line [of f e "dir_path dl" url] by blast
qed

theorem parent_link_witness:
  "DirListing example_env ''sub'' =
     Inr \<lparr> dir_path = ''/srv/www/sub'', is_root_dir = False, parent_dir = ''/srv/www'' \<rparr>
   \<and> fs example_env ''/srv/www/sub'' = Some (Dir [])
   \<and> get_hyperlinked_dir_listing example_env
        \<lparr> dir_path = ''/srv/www/sub'', is_root_dir = False, parent_dir = ''/srv/www'' \<rparr>
      = Inr (''<html><body>'' @ ''<a href='' @ DQ @ ''/'' @ DQ @ ''>[parent directory]</a><br>''
             @ ''</body></html>'')
   \<and> DirListing example_env [] =
     Inr \<lparr> dir_path = ''/srv/www'', is_root_dir = True, parent_dir = [] \<rparr>
   \<and> get_hyperlinked_dir_listing example_env
       \<lparr> dir_path = ''/srv/www'', is_root_dir = True, parent_dir = [] \<rparr>
     = Inr (''<html><body>'' @ ''a.txt<br><a href='' @ DQ @ ''/sub'' @ DQ @ ''>sub/</a><br>''
            @ ''</body></html>'')"
proof -
  let ?sub = "\<lparr> dir_path = ''/srv/www/sub'', is_root_dir = False, parent_dir = ''/srv/www'' \<rparr>"
  let ?root = "\<lparr> dir_path = ''/srv/www'', is_root_dir = True, parent_dir = [] \<rparr>"
  have 1: "DirListing example_env ''sub'' = Inr ?sub"
    by (rule example_sub_listing)
  have 2: "fs example_env (dir_path ?sub) = Some (Dir [])"
    by (simp add: example_env_def example_fs_def)
  have 3: "DirListing example_env [] = Inr ?root"
    by (rule example_root_listing)
  have 4: "fs example_env (dir_path ?root) = Some (Dir [''a.txt'', ''sub'', ''.hidden''])"
    by (simp add: example_env_def example_fs_def)
  have d: "dirname ''/srv/www/sub'' = ''/srv/www''"
    by (simp add: dirname_def rfind_def rstrip_def os_sep_def)
  have u: "dir_path_to_url_path ''/srv/www'' ''/srv/www'' = ''/''"
    by (rule unresolve_self)
  have c: "cwd example_env = ''/srv/www''"
    by (simp add: example_env_def)
  have en: "concat (map (spec_entry_html example_env (dir_path ?root))
      (filter spec_visible [''a.txt'', ''sub'', ''.hidden'']))
   = ''a.txt<br><a href='' @ DQ @ ''/sub'' @ DQ @ ''>sub/</a><br>''"
    using example_root_entries by simp
  show ?thesis
    using 1 2 3 parent_link [OF 1 2, where f = "''a.txt''" and url = "''/''"]
      parent_link [OF 3 4, where f = "''a.txt''" and url = "''/''"]
    unfolding en by (simp add: d u c spec_parent_link_def)
qed

section \<open>Path resolution\<close>

lemma example_parent_listing:
  "DirListing example_env ''..'' =
     Inr \<lparr> dir_path = ''/srv/www/..'', is_root_dir = False, parent_dir = ''/srv/www'' \<rparr>"
proof -
  have "dirname ''/srv/www/..'' = ''/srv/www''"
    by (simp add: dirname_def rfind_def rstrip_def os_sep_def)
  then show ?thesis
    by (simp add: DirListing_def example_env_def path_exists_def example_fs_def resolve_eval)
qed

lemma example_parent_document:
  "get_hyperlinked_dir_listing example_env
      \<lparr> dir_path = ''/srv/www/..'', is_root_dir = False, parent_dir = ''/srv/www'' \<rparr>
   = Inr (''<html><body><a href='' @ DQ @ ''/'' @ DQ @ ''>[parent directory]</a><br>''
          @ ''<a href='' @ DQ @ ''/../www'' @ DQ @ ''>www/</a><br>secret.txt<br></body></html>'')"
proof -
  have j: "path_join ''/srv/www/..'' ''www'' = ''/srv/www/../www''"
      "path_join ''/srv/www/..'' ''secret.txt'' = ''/srv/www/../secret.txt''"
    by (simp_all add: path_join_relative)
  have u: "dir_path_to_url_path ''/srv/www'' ''/srv/www/../www'' = ''/../www''"
    using unresolve_under [of "''/srv/www''" "''../www''"] by simp
  have p: "dir_path_to_url_path ''/srv/www'' ''/srv/www'' = ''/''"
    by (rule unresolve_self)
  show ?thesis
    by (simp add: get_hyperlinked_dir_listing_def listdir_def listing_loop_entries
        spec_visible_def startswith_def spec_entry_html_def j u p isdir_def
        example_env_def example_fs_def)
qed

lemma response_headers_content_type:
  assumes "headers self < length h" and "h ! headers self = base_headers"
  shows "fst (response_headers self h (Some [(''Content-Type'', ''text/html'')])) =
     Inr (''Server: CrudeServer'' @ CRLF @ ''Content-Type: text/html'' @ CRLF)"
  using assms
  by (simp add: response_headers_store extra_dict_def base_headers_def dict_getitem_def)

text \<open>
  Claim C1, as stated: every resolved path that is used to access the filesystem stays
  inside the root, and a path that falls outside the root after normalisation is treated
  as not found. In the example installation the request for \<^verbatim>\<open>/..\<close> resolves to
  \<^verbatim>\<open>/srv/www/..\<close>, which is outside the root \<^verbatim>\<open>/srv/www\<close> after normalisation; the
  handler answers 200 and lists the directory above the root.
\<close>

theorem traversal_counterexample:
  "\<not> spec_inside_root (cwd example_env)
        (url_path_to_dir_path (cwd example_env) (strip ''/..'' ''/''))
   \<and> fst (handle_GET example_server example_env example_store (get_request ''/..'')) =
       Inr (''HTTP/1.1 200 OK'' @ CRLF
            @ ''Server: CrudeServer'' @ CRLF @ ''Content-Type: text/html'' @ CRLF @ CRLF
            @ ''<html><body><a href='' @ DQ @ ''/'' @ DQ @ ''>[parent directory]</a><br>''
            @ ''<a href='' @ DQ @ ''/../www'' @ DQ @ ''>www/</a><br>secret.txt<br></body></html>'')"
proof -
  have outside: "\<not> spec_inside_root ''/srv/www'' ''/srv/www/..''"
    by (simp add: spec_inside_root_def spec_normal_components_def split_def startswith_def)
  obtain r h1 where rh: "response_headers example_server example_store
      (Some [(''Content-Type'', ''text/html'')]) = (r, h1)"
    by (cases "response_headers example_server example_store (Some [(''Content-Type'', ''text/html'')])")
  have r: "r = Inr (''Server: CrudeServer'' @ CRLF @ ''Content-Type: text/html'' @ CRLF)"
    using response_headers_content_type [of example_server example_store] example_wf rh by simp
  have "handle_GET_try example_server example_env example_store ''..'' =
      (Inr (''HTTP/1.1 200 OK'' @ CRLF,
            ''Server: CrudeServer'' @ CRLF @ ''Content-Type: text/html'' @ CRLF,
            ''<html><body><a href='' @ DQ @ ''/'' @ DQ @ ''>[parent directory]</a><br>''
            @ ''<a href='' @ DQ @ ''/../www'' @ DQ @ ''>www/</a><br>secret.txt<br></body></html>''), h1)"
    by (simp add: handle_GET_try_def example_parent_listing response_line_200 rh r
        example_parent_document encode_def)
  then have "fst (handle_GET example_server example_env example_store (get_request ''/..'')) =
       Inr (''HTTP/1.1 200 OK'' @ CRLF
            @ ''Server: CrudeServer'' @ CRLF @ ''Content-Type: text/html'' @ CRLF @ CRLF
            @ ''<html><body><a href='' @ DQ @ ''/'' @ DQ @ ''>[parent directory]</a><br>''
            @ ''<a href='' @ DQ @ ''/../www'' @ DQ @ ''>www/</a><br>secret.txt<br></body></html>'')"
    by (simp add: handle_GET_def get_request_def strip_eval)
  with outside show ?thesis
    by (simp add: example_env_def strip_eval resolve_eval)
qed

text \<open>
  Claim C1, amended. For every URI given to the GET handler, the resolved path is the
  working directory followed by a separator and the URI stripped of slashes (the
  working directory itself when nothing is left); the working directory is a textual
  prefix of it, \<open>.\<close> and \<open>..\<close> segments are kept as written and no containment test
  is made. The constructor raises the not-found error exactly when the filesystem has
  nothing at the resolved path.
\<close>

theorem resolved_path:
  assumes "cwd e \<noteq> []" and "cwd e = ''/'' \<or> last (cwd e) \<noteq> CHR ''/''"
  shows "url_path_to_dir_path (cwd e) (strip raw ''/'') =
           (if strip raw ''/'' = [] then cwd e
            else if cwd e = ''/'' then ''/'' @ strip raw ''/''
            else cwd e @ ''/'' @ strip raw ''/'')
       \<and> startswith (url_path_to_dir_path (cwd e) (strip raw ''/'')) (cwd e)
       \<and> (DirListing e (strip raw ''/'') = Inl FileNotFoundError
            \<longleftrightarrow> fs e (url_path_to_dir_path (cwd e) (strip raw ''/'')) = None)"
proof -
  let ?u = "strip raw ''/''"
  have s: "stripped ?u" by (rule strip_stripped)
  have shape: "url_path_to_dir_path (cwd e) ?u =
           (if ?u = [] then cwd e
            else if cwd e = ''/'' then ''/'' @ ?u
            else cwd e @ ''/'' @ ?u)"
  proof (cases "cwd e = ''/''")
    case True
    then show ?thesis using resolve_root_cwd [OF s] by simp
  next
    case False
    with assms have l: "last (cwd e) \<noteq> CHR ''/''" by simp
    show ?thesis
      using False resolve_empty [OF assms(1) l] resolve_nonempty [OF assms(1) l _ s]
      by simp
  qed
  have pre: "startswith (url_path_to_dir_path (cwd e) ?u) (cwd e)"
    unfolding shape by (auto simp: startswith_def)
  have nf: "DirListing e ?u = Inl FileNotFoundError
            \<longleftrightarrow> fs e (url_path_to_dir_path (cwd e) ?u) = None"
    by (auto simp: DirListing_def path_exists_def Let_def split: option.splits)
  from shape pre nf show ?thesis by blast
qed

theorem resolved_path_witness:
  "cwd example_env \<noteq> [] \<and> last (cwd example_env) \<noteq> CHR ''/''
   \<and> url_path_to_dir_path (cwd example_env) (strip ''/..'' ''/'') = ''/srv/www/..''
   \<and> startswith ''/srv/www/..'' (cwd example_env)
   \<and> DirListing example_env (strip ''/..'' ''/'') \<noteq> Inl FileNotFoundError"
proof -
  have 1: "cwd example_env \<noteq> []"
    by (simp add: example_env_def)
  have 2: "cwd example_env = ''/'' \<or> last (cwd example_env) \<noteq> CHR ''/''"
    by (simp add: example_env_def)
  have 3: "fs example_env ''/srv/www/..'' \<noteq> None"
    by (simp add: example_env_def example_fs_def)
  have 4: "cwd example_env = ''/srv/www''"
    by (simp add: example_env_def)
  show ?thesis
    using 3 resolved_path [OF 1 2, of "''/..''"]
    by (simp add: strip_eval 4 startswith_def)
qed

text \<open>
  Claim C5, as stated: for every url path under the base directory, resolving and
  unresolving yields the normalised form of the path, a url with a leading slash. With
  the base \<^verbatim>\<open>/srv/www\<close> the path \<^verbatim>\<open>a/../b\<close> comes back as \<^verbatim>\<open>/a/../b\<close>, while its
  normalised form is \<^verbatim>\<open>/b\<close>; with the base \<^verbatim>\<open>/\<close> the path \<^verbatim>\<open>foo\<close> comes back
  without a leading slash.
\<close>

theorem roundtrip_counterexample:
  "dir_path_to_url_path ''/srv/www'' (url_path_to_dir_path ''/srv/www'' ''a/../b'') = ''/a/../b''
   \<and> spec_normalized_url ''a/../b'' = ''/b''
   \<and> dir_path_to_url_path ''/'' (url_path_to_dir_path ''/'' ''foo'') = ''foo''"
proof -
  have 1: "url_path_to_dir_path ''/srv/www'' ''a/../b'' = ''/srv/www/a/../b''"
    by (simp add: resolve_nonempty stripped_def)
  have 2: "dir_path_to_url_path ''/srv/www'' ''/srv/www/a/../b'' = ''/a/../b''"
    using unresolve_under [of "''/srv/www''" "''a/../b''"] by simp
  have 3: "spec_normalized_url ''a/../b'' = ''/b''"
    by (simp add: spec_normalized_url_def spec_normal_components_def split_def startswith_def)
  have 4: "url_path_to_dir_path ''/'' ''foo'' = ''/foo''"
    using resolve_root_cwd [of "''foo''"] by (simp add: stripped_def)
  have 5: "dir_path_to_url_path ''/'' ''/foo'' = ''foo''"
    by (simp add: dir_path_to_url_path_def startswith_def replace_def split_def os_sep_def)
  show ?thesis
    by (simp only: 1 2 3 4 5)
qed

text \<open>
  Claim C5, amended. For a base directory that does not end with a separator (every
  working directory except \<^verbatim>\<open>/\<close>) and every url path \<open>p\<close> without a separator at
  either end, resolving and unresolving yields a slash followed by \<open>p\<close> as written:
  \<open>.\<close> and \<open>..\<close> segments are not collapsed. Unresolving yields \<^verbatim>\<open>/\<close> when the
  input does not start with the base directory and when nothing is left after the base
  directory has been cut off.
\<close>

theorem roundtrip:
  assumes "c \<noteq> []" and "last c \<noteq> CHR ''/''" and "stripped p"
  shows "dir_path_to_url_path c (url_path_to_dir_path c p) = ''/'' @ p
       \<and> (\<not> startswith d c \<longrightarrow> dir_path_to_url_path c d = ''/'')
       \<and> (drop (length c) d = [] \<longrightarrow> dir_path_to_url_path c d = ''/'')"
proof -
  have "dir_path_to_url_path c (url_path_to_dir_path c p) = ''/'' @ p"
  proof (cases "p = []")
    case True
    then show ?thesis
      using resolve_empty [OF assms(1,2)] by (simp add: unresolve_self)
  next
    case False
    then show ?thesis
      using resolve_nonempty [OF assms(1,2) False assms(3)] unresolve_under [of c p] by simp
  qed
  moreover have "drop (length c) d = [] \<longrightarrow> dir_path_to_url_path c d = ''/''"
    by (simp add: dir_path_to_url_path_def replace_def split_def)
  ultimately show ?thesis
    by (simp add: unresolve_no_prefix)
qed

theorem roundtrip_witness:
  "''/srv/www'' \<noteq> [] \<and> last ''/srv/www'' \<noteq> CHR ''/'' \<and> stripped ''sub/dir''
   \<and> dir_path_to_url_path ''/srv/www'' (url_path_to_dir_path ''/srv/www'' ''sub/dir'') = ''/sub/dir''
   \<and> \<not> startswith ''/etc'' ''/srv/www''
   \<and> dir_path_to_url_path ''/srv/www'' ''/etc'' = ''/''"
proof -
  have 1: "''/srv/www'' \<noteq> []" by simp
  have 2: "last ''/srv/www'' \<noteq> CHR ''/''" by simp
  have 3: "stripped ''sub/dir''" by (simp add: stripped_def)
  have 4: "\<not> startswith ''/etc'' ''/srv/www''" by (simp add: startswith_def)
  show ?thesis
    using 1 2 3 4 roundtrip [OF 1 2 3, of "''/etc''"] by simp
qed

end
